theory Spec2Isabelle
  imports Main
begin

section \<open>The traffic-light manager of \<^verbatim>\<open>src/main.py\<close>\<close>

text \<open>
  The program keeps one process-wide \<^verbatim>\<open>TrafficLightManager\<close>. Its handlers are
  coroutines; here every handler runs to its end before the next one starts, so that an
  operation is a function from the manager's state to the new state and the list of
  \<^verbatim>\<open>send_text\<close> calls it made, in order, each with its outcome.

  A \<^verbatim>\<open>WebSocket\<close> object is compared by identity (\<^verbatim>\<open>in\<close>, \<^verbatim>\<open>==\<close>, \<^verbatim>\<open>remove\<close> all
  use \<^verbatim>\<open>object.__eq__\<close>), so a handle is its identity, a natural number. A handle is
  always truthy. The wall-clock \<^verbatim>\<open>timestamp\<close> field of the outbound messages is left out.
\<close>

subsection \<open>Data\<close>

type_synonym ws = nat

record manager =
  active_connections :: "ws list"
  controller :: "ws option"
  current_color :: string
  controller_id :: "string option"

text \<open>The outbound messages, as the dictionaries handed to \<^verbatim>\<open>json.dumps\<close>:
  \<^verbatim>\<open>state_update\<close> (color, is\_controller, controller\_id), \<^verbatim>\<open>color_change\<close> (color),
  \<^verbatim>\<open>user_update\<close> (total\_users, controller\_id).\<close>

datatype message =
    State_update string bool "string option"
  | Color_change string
  | User_update nat "string option"

text \<open>One call of \<^verbatim>\<open>send_text\<close>: the target, the payload, and whether the call
  returned (\<open>True\<close>) or raised (\<open>False\<close>).\<close>

type_synonym sent = "ws \<times> message \<times> bool"

text \<open>What the transport does during one operation: whether \<^verbatim>\<open>accept\<close> succeeds on a
  handle, and whether \<^verbatim>\<open>send_text\<close> to a handle succeeds (otherwise it raises).\<close>

record transport =
  accept_ok :: "ws \<Rightarrow> bool"
  send_ok :: "ws \<Rightarrow> bool"

datatype error = AcceptError | JSONDecodeError | TypeError | KeyError

text \<open>The value \<^verbatim>\<open>json.loads\<close> returns. An object is the association list of the
  resulting dictionary.\<close>

datatype json =
    JNull
  | JBool bool
  | JNum int
  | JStr string
  | JArr "json list"
  | JObj "(string \<times> json) list"

text \<open>The text frame a handler receives: not JSON at all, or a JSON value.\<close>

datatype frame = Malformed | Parsed json

record status =
  st_current_color :: string
  st_total_users :: nat
  st_controller_id :: "string option"

subsection \<open>\<^verbatim>\<open>TrafficLightManager\<close>\<close>

definition init :: manager where
  "init = \<lparr>active_connections = [], controller = None,
           current_color = ''none'', controller_id = None\<rparr>"

text \<open>\<^verbatim>\<open>await websocket.send_text(json.dumps(m))\<close>, with its outcome.\<close>

definition send_text :: "transport \<Rightarrow> ws \<Rightarrow> message \<Rightarrow> sent" where
  "send_text env w m = (w, m, send_ok env w)"

text \<open>\<^verbatim>\<open>send_state_update\<close>: one send; a failure is swallowed (\<^verbatim>\<open>except: pass\<close>).\<close>

definition send_state_update :: "transport \<Rightarrow> manager \<Rightarrow> ws \<Rightarrow> bool \<Rightarrow> sent list" where
  "send_state_update env s w is_controller =
     [send_text env w (State_update (current_color s) is_controller (controller_id s))]"

text \<open>\<^verbatim>\<open>broadcast_user_update\<close>: the payload is built once, before the loop; the loop
  never changes the list, and a failure is swallowed (\<^verbatim>\<open>except: pass\<close>).\<close>

definition broadcast_user_update :: "transport \<Rightarrow> manager \<Rightarrow> sent list" where
  "broadcast_user_update env s =
     (let user_data = User_update (length (active_connections s)) (controller_id s)
      in map (\<lambda>connection. send_text env connection user_data) (active_connections s))"

definition connect :: "transport \<Rightarrow> manager \<Rightarrow> ws \<Rightarrow> string \<Rightarrow> error + (manager \<times> sent list \<times> bool)" where
  "connect env s w user_id =
     (if \<not> accept_ok env w then Inl AcceptError
      else
        let s1 = s\<lparr>active_connections := active_connections s @ [w]\<rparr>;
            is_controller = (controller s1 = None);
            s2 = (if is_controller
                  then s1\<lparr>controller := Some w, controller_id := Some user_id\<rparr>
                  else s1)
        in Inr (s2, send_state_update env s2 w is_controller @ broadcast_user_update env s2,
                is_controller))"

text \<open>\<^verbatim>\<open>disconnect\<close>: \<^verbatim>\<open>list.remove\<close> deletes the first occurrence; the promoted handle is
  \<^verbatim>\<open>active_connections[0]\<close>, read only when the list is not empty.\<close>

definition disconnect :: "manager \<Rightarrow> ws \<Rightarrow> manager \<times> bool" where
  "disconnect s w =
     (if w \<in> set (active_connections s) then
        let s1 = s\<lparr>active_connections := remove1 w (active_connections s)\<rparr> in
        if Some w = controller s1 then
          let s2 = s1\<lparr>controller := None, controller_id := None\<rparr> in
          (case active_connections s2 of
             [] \<Rightarrow> (s2, False)
           | c # _ \<Rightarrow> (s2\<lparr>controller := Some c\<rparr>, True))
        else (s1, False)
      else (s, False))"

text \<open>The loop of \<^verbatim>\<open>broadcast_color_change\<close>. Python's list iterator holds an index into
  the live list: each round reads \<^verbatim>\<open>conns[i]\<close> if \<^verbatim>\<open>i < len(conns)\<close> and moves to
  \<^verbatim>\<open>i + 1\<close>; the \<^verbatim>\<open>except\<close> branch removes the handle from the very list being
  iterated. The result is the list left and the sends made.\<close>

function color_loop :: "(ws \<Rightarrow> bool) \<Rightarrow> message \<Rightarrow> nat \<Rightarrow> ws list \<Rightarrow> ws list \<times> sent list" where
  "color_loop ok m i conns =
     (if i < length conns then
        (if ok (conns ! i)
         then (case color_loop ok m (Suc i) conns of
                 (cs, tr) \<Rightarrow> (cs, (conns ! i, m, True) # tr))
         else (case color_loop ok m (Suc i) (remove1 (conns ! i) conns) of
                 (cs, tr) \<Rightarrow> (cs, (conns ! i, m, False) # tr)))
      else (conns, []))"
  by pat_completeness auto
termination
  by (relation "measure (\<lambda>(ok, m, i, conns). length conns - i)")
     (auto simp: length_remove1)

declare color_loop.simps [simp del]

definition broadcast_color_change :: "transport \<Rightarrow> manager \<Rightarrow> string \<Rightarrow> manager \<times> sent list" where
  "broadcast_color_change env s color =
     (let s1 = s\<lparr>current_color := color\<rparr> in
      case color_loop (send_ok env) (Color_change color) 0 (active_connections s1) of
        (cs, tr) \<Rightarrow> (s1\<lparr>active_connections := cs\<rparr>, tr))"

definition broadcast_new_controller :: "transport \<Rightarrow> manager \<Rightarrow> sent list" where
  "broadcast_new_controller env s =
     (case controller s of
        None \<Rightarrow> []
      | Some c \<Rightarrow>
          send_state_update env s c True @
          concat (map (\<lambda>connection.
                         if connection \<noteq> c then send_state_update env s connection False
                         else [])
                    (active_connections s)))"

subsection \<open>The handler \<^verbatim>\<open>websocket_endpoint\<close> and \<^verbatim>\<open>get_status\<close>\<close>

text \<open>\<^verbatim>\<open>message_data[key]\<close>: a dictionary lookup, \<^verbatim>\<open>KeyError\<close> on a missing key,
  \<^verbatim>\<open>TypeError\<close> on anything that is not a dictionary.\<close>

fun subscript :: "json \<Rightarrow> string \<Rightarrow> error + json" where
  "subscript (JObj kvs) k = (case map_of kvs k of None \<Rightarrow> Inl KeyError | Some v \<Rightarrow> Inr v)"
| "subscript _ k = Inl TypeError"

definition colors :: "string list" where
  "colors = [''red'', ''yellow'', ''green'', ''none'']"

text \<open>One round of the receive loop, for the frame received on handle \<^verbatim>\<open>w\<close>. \<^verbatim>\<open>and\<close>
  is short-circuit: the color is read only from a \<^verbatim>\<open>color_change\<close> of the controller. An
  error leaves the handler through an exception that nothing catches.\<close>

definition on_message :: "transport \<Rightarrow> manager \<Rightarrow> ws \<Rightarrow> frame \<Rightarrow> error + (manager \<times> sent list)" where
  "on_message env s w f =
     (case f of
        Malformed \<Rightarrow> Inl JSONDecodeError
      | Parsed message_data \<Rightarrow>
          (case subscript message_data ''type'' of
             Inl e \<Rightarrow> Inl e
           | Inr t \<Rightarrow>
               if t = JStr ''color_change'' \<and> Some w = controller s then
                 (case subscript message_data ''color'' of
                    Inl e \<Rightarrow> Inl e
                  | Inr (JStr color) \<Rightarrow>
                      if color \<in> set colors then Inr (broadcast_color_change env s color)
                      else Inr (s, [])
                  | Inr _ \<Rightarrow> Inr (s, []))
               else Inr (s, [])))"

text \<open>The \<^verbatim>\<open>except WebSocketDisconnect\<close> block.\<close>

definition on_close :: "transport \<Rightarrow> manager \<Rightarrow> ws \<Rightarrow> manager \<times> sent list" where
  "on_close env s w =
     (case disconnect s w of
        (s1, new_controller_assigned) \<Rightarrow>
          (s1, (if new_controller_assigned then broadcast_new_controller env s1 else []) @
               broadcast_user_update env s1))"

definition get_status :: "manager \<Rightarrow> status" where
  "get_status s =
     \<lparr>st_current_color = current_color s,
      st_total_users = length (active_connections s),
      st_controller_id = controller_id s\<rparr>"

subsection \<open>Runs\<close>

text \<open>What reaches the manager: a new connection with its user id, a frame on a
  connection, the close of a connection. A handler that dies of an exception changes
  nothing.\<close>

datatype event = Connect ws string | Receive ws frame | Close ws

fun step :: "transport \<Rightarrow> manager \<Rightarrow> event \<Rightarrow> manager \<times> sent list" where
  "step env s (Connect w user_id) =
     (case connect env s w user_id of
        Inl e \<Rightarrow> (s, [])
      | Inr (s', tr, is_controller) \<Rightarrow> (s', tr))"
| "step env s (Receive w f) =
     (case on_message env s w f of Inl e \<Rightarrow> (s, []) | Inr r \<Rightarrow> r)"
| "step env s (Close w) = on_close env s w"

fun run :: "manager \<Rightarrow> (transport \<times> event) list \<Rightarrow> manager" where
  "run s [] = s"
| "run s ((env, e) # evs) = run (fst (step env s e)) evs"

fun is_receive :: "event \<Rightarrow> bool" where
  "is_receive (Receive w f) = True"
| "is_receive _ = False"

text \<open>The handles that joined, in the order of joining.\<close>

fun joined :: "(transport \<times> event) list \<Rightarrow> ws list" where
  "joined [] = []"
| "joined ((env, Connect w user_id) # evs) =
     (if accept_ok env w then w # joined evs else joined evs)"
| "joined (_ # evs) = joined evs"

fun is_user_update :: "sent \<Rightarrow> bool" where
  "is_user_update (c, User_update n cid, b) = True"
| "is_user_update _ = False"

text \<open>Transports for the examples: everything works; sends to one handle fail; every
  send fails.\<close>

definition up :: transport where
  "up = \<lparr>accept_ok = (\<lambda>w. True), send_ok = (\<lambda>w. True)\<rparr>"

definition down_for :: "ws \<Rightarrow> transport" where
  "down_for d = \<lparr>accept_ok = (\<lambda>w. True), send_ok = (\<lambda>w. w \<noteq> d)\<rparr>"

definition all_down :: transport where
  "all_down = \<lparr>accept_ok = (\<lambda>w. True), send_ok = (\<lambda>w. False)\<rparr>"

definition three :: manager where
  "three = run init [(up, Connect 0 ''alice''), (up, Connect 1 ''bob''), (up, Connect 2 ''carol'')]"

definition set_color :: "string \<Rightarrow> frame" where
  "set_color c = Parsed (JObj [(''type'', JStr ''color_change''), (''color'', JStr c)])"

text \<open>The controller reference is a registered connection, or there is neither.\<close>

definition controller_ok :: "manager \<Rightarrow> bool" where
  "controller_ok s =
     (case controller s of
        None \<Rightarrow> active_connections s = []
      | Some c \<Rightarrow> c \<in> set (active_connections s))"

text \<open>Two runs for the examples: joins and leaves only; four joins and a color request
  during which the send to connection 1 fails.\<close>

definition membership :: "(transport \<times> event) list" where
  "membership = [(up, Connect 0 ''alice''), (up, Connect 1 ''bob''), (up, Close 0), (up, Close 1)]"

definition session :: "(transport \<times> event) list" where
  "session = [(up, Connect 0 ''alice''), (up, Connect 1 ''bob''), (up, Connect 2 ''carol''),
              (up, Connect 3 ''dave''), (down_for 1, Receive 0 (set_color ''red''))]"

text \<open>A run in which the controller sends a color request and the echo to its own
  connection fails.\<close>

definition stale :: "(transport \<times> event) list" where
  "stale = [(up, Connect 0 ''alice''), (up, Connect 1 ''bob''), (up, Connect 2 ''carol''),
            (down_for 0, Receive 0 (set_color ''red''))]"

section \<open>Helper facts\<close>

lemma three_eq:
  "three = \<lparr>active_connections = [0, 1, 2], controller = Some 0,
            current_color = ''none'', controller_id = Some ''alice''\<rparr>"
  by code_simp

lemma disconnect_absent:
  "w \<notin> set (active_connections s) \<Longrightarrow> disconnect s w = (s, False)"
  by (simp add: disconnect_def)

lemma disconnect_active:
  "active_connections (fst (disconnect s w)) = remove1 w (active_connections s)"
  by (simp add: disconnect_def Let_def remove1_idem split: list.splits)

lemma broadcast_color_change_color:
  "current_color (fst (broadcast_color_change env s c)) = c"
  by (simp add: broadcast_color_change_def Let_def split: prod.splits)

text \<open>The connections left by the color loop are those without a failed send.\<close>

lemma color_loop_conns:
  "distinct conns \<Longrightarrow>
   fst (color_loop ok m i conns) =
     filter (\<lambda>c. (c, m, False) \<notin> set (snd (color_loop ok m i conns))) conns"
proof (induction ok m i conns rule: color_loop.induct)
  case (1 ok m i conns)
  show ?case
  proof (cases "i < length conns")
    case False
    then show ?thesis by (simp add: color_loop.simps [of ok m i conns])
  next
    case True
    show ?thesis
    proof (cases "ok (conns ! i)")
      case ok: True
      obtain cs tr where r: "color_loop ok m (Suc i) conns = (cs, tr)" by fastforce
      have "cs = filter (\<lambda>c. (c, m, False) \<notin> set tr) conns"
        using "1.IH"(1) [OF True ok "1.prems"] r by simp
      then show ?thesis
        using True ok r by (simp add: color_loop.simps [of ok m i conns])
    next
      case bad: False
      let ?c = "conns ! i"
      obtain cs tr where r: "color_loop ok m (Suc i) (remove1 ?c conns) = (cs, tr)" by fastforce
      have d: "distinct (remove1 ?c conns)" using "1.prems" by simp
      have "cs = filter (\<lambda>c. (c, m, False) \<notin> set tr) (remove1 ?c conns)"
        using "1.IH"(2) [OF True bad d] r by simp
      also have "remove1 ?c conns = filter (\<lambda>c. c \<noteq> ?c) conns"
        using "1.prems" by (simp add: distinct_remove1_removeAll removeAll_filter_not_eq) metis
      finally have "cs = filter (\<lambda>c. (c, m, False) \<notin> set ((?c, m, False) # tr)) conns"
        by (simp add: conj_commute)
      then show ?thesis
        using True bad r by (simp add: color_loop.simps [of ok m i conns])
    qed
  qed
qed

text \<open>When no send fails, the color loop visits every connection from \<open>i\<close> on and
  leaves the list as it is.\<close>

lemma color_loop_all_ok:
  "\<forall>c \<in> set conns. ok c \<Longrightarrow>
   color_loop ok m i conns = (conns, map (\<lambda>c. (c, m, True)) (drop i conns))"
proof (induction ok m i conns rule: color_loop.induct)
  case (1 ok m i conns)
  show ?case
  proof (cases "i < length conns")
    case False
    then show ?thesis by (simp add: color_loop.simps [of ok m i conns])
  next
    case True
    then have ok: "ok (conns ! i)" using "1.prems" by simp
    have "color_loop ok m (Suc i) conns = (conns, map (\<lambda>c. (c, m, True)) (drop (Suc i) conns))"
      using "1.IH"(1) [OF True ok "1.prems"] .
    then show ?thesis
      using True ok by (simp add: color_loop.simps [of ok m i conns] Cons_nth_drop_Suc [symmetric])
  qed
qed

lemma user_update_targets:
  "map fst (broadcast_user_update env s) = active_connections s"
  by (simp add: broadcast_user_update_def send_text_def Let_def comp_def)

lemma new_controller_targets:
  "controller s = Some c \<Longrightarrow>
   map fst (broadcast_new_controller env s) = c # filter (\<lambda>d. d \<noteq> c) (active_connections s)"
proof -
  have "map fst (concat (map (\<lambda>d. if d \<noteq> c then send_state_update env s d False else []) xs))
        = filter (\<lambda>d. d \<noteq> c) xs" for xs
    by (induction xs) (simp_all add: send_state_update_def send_text_def)
  then show "controller s = Some c \<Longrightarrow> ?thesis"
    by (simp add: broadcast_new_controller_def send_state_update_def send_text_def)
qed

lemma filter_is_user_update_state [simp]:
  "filter is_user_update (send_state_update env s w b) = []"
  by (simp add: send_state_update_def send_text_def)

lemma filter_is_user_update_new_controller [simp]:
  "filter is_user_update (broadcast_new_controller env s) = []"
  by (simp add: broadcast_new_controller_def filter_concat comp_def split: option.splits)

lemma filter_is_user_update_user [simp]:
  "filter is_user_update (broadcast_user_update env s) = broadcast_user_update env s"
  by (simp add: broadcast_user_update_def send_text_def Let_def)

lemma controller_ok_init: "controller_ok init"
  by (simp add: controller_ok_def init_def)

lemma controller_ok_connect:
  "connect env s w user_id = Inr (s', tr, b) \<Longrightarrow> controller_ok s \<Longrightarrow> controller_ok s'"
  by (auto simp: connect_def controller_ok_def Let_def split: if_splits option.splits)

lemma controller_ok_disconnect:
  "controller_ok s \<Longrightarrow> controller_ok (fst (disconnect s w))"
  by (auto simp: disconnect_def controller_ok_def Let_def split: option.splits list.splits)

lemma controller_ok_step:
  "\<not> is_receive e \<Longrightarrow> controller_ok s \<Longrightarrow> controller_ok (fst (step env s e))"
proof (cases e)
  case (Connect w user_id)
  assume "controller_ok s"
  then show ?thesis
    using Connect controller_ok_connect [of env s w user_id]
    by (cases "connect env s w user_id") auto
next
  case (Receive w f)
  assume "\<not> is_receive e"
  then show ?thesis using Receive by simp
next
  case (Close w)
  assume "controller_ok s"
  then show ?thesis
    using Close controller_ok_disconnect [of s w]
    by (cases "disconnect s w") (simp add: on_close_def)
qed

lemma controller_ok_run:
  "\<forall>p \<in> set evs. \<not> is_receive (snd p) \<Longrightarrow> controller_ok s \<Longrightarrow> controller_ok (run s evs)"
proof (induction evs arbitrary: s)
  case Nil
  then show ?case by simp
next
  case (Cons p evs)
  obtain env e where p: "p = (env, e)" by (cases p)
  have "controller_ok (fst (step env s e))"
    using Cons.prems p by (simp add: controller_ok_step)
  then show ?case using Cons.IH Cons.prems p by simp
qed

text \<open>A list that is a selection of \<open>js\<close>, in the order of \<open>js\<close>, stays one when
  filtered.\<close>

lemma filter_in_order:
  assumes "xs = filter (\<lambda>c. c \<in> set xs) js"
  shows "filter P xs = filter (\<lambda>c. c \<in> set (filter P xs)) js"
proof -
  have "filter P xs = filter P (filter (\<lambda>c. c \<in> set xs) js)"
    using assms by simp
  also have "\<dots> = filter (\<lambda>c. c \<in> set xs \<and> P c) js" by simp
  finally have A: "filter P xs = filter (\<lambda>c. c \<in> set xs \<and> P c) js" .
  have B: "(\<lambda>c. c \<in> set (filter P xs)) = (\<lambda>c. c \<in> set xs \<and> P c)" by auto
  show ?thesis unfolding B by (rule A)
qed

lemma connect_active:
  "accept_ok env w \<Longrightarrow>
   active_connections (fst (step env s (Connect w user_id))) = active_connections s @ [w]"
  by (simp add: connect_def Let_def)

lemma connect_refused:
  "\<not> accept_ok env w \<Longrightarrow> fst (step env s (Connect w user_id)) = s"
  by (simp add: connect_def)

lemma broadcast_color_change_active:
  "distinct (active_connections s) \<Longrightarrow>
   \<exists>P. active_connections (fst (broadcast_color_change env s color)) =
         filter P (active_connections s)"
proof -
  assume d: "distinct (active_connections s)"
  obtain cs tr where r:
    "color_loop (send_ok env) (Color_change color) 0 (active_connections s) = (cs, tr)"
    by fastforce
  have "cs = filter (\<lambda>d. (d, Color_change color, False) \<notin> set tr) (active_connections s)"
    using color_loop_conns [OF d, of "send_ok env" "Color_change color" 0] r by simp
  then have "active_connections (fst (broadcast_color_change env s color)) =
      filter (\<lambda>d. (d, Color_change color, False) \<notin> set tr) (active_connections s)"
    using r by (simp add: broadcast_color_change_def)
  then show ?thesis by blast
qed

lemma receive_state:
  "fst (step env s (Receive w f)) = s \<or>
   (\<exists>color. fst (step env s (Receive w f)) = fst (broadcast_color_change env s color))"
  by (auto simp: on_message_def split: frame.splits sum.splits json.splits)
     (metis fst_conv)

lemma receive_active:
  assumes "distinct (active_connections s)"
  shows "\<exists>P. active_connections (fst (step env s (Receive w f))) =
              filter P (active_connections s)"
proof -
  have same: "active_connections s = filter (\<lambda>c. True) (active_connections s)"
    by simp
  show ?thesis
    using receive_state [of env s w f] same broadcast_color_change_active [OF assms]
    by metis
qed

lemma close_active:
  assumes "distinct (active_connections s)"
  shows "active_connections (fst (step env s (Close w))) =
           filter (\<lambda>c. c \<noteq> w) (active_connections s)"
proof -
  have "active_connections (fst (step env s (Close w))) = remove1 w (active_connections s)"
    using disconnect_active [of s w] by (cases "disconnect s w") (simp add: on_close_def)
  also have "\<dots> = filter (\<lambda>c. c \<noteq> w) (active_connections s)"
    using assms by (simp add: distinct_remove1_removeAll removeAll_filter_not_eq) metis
  finally show ?thesis .
qed

text \<open>When every handle joins at most once, the registry lists the registered handles in
  the order in which they joined.\<close>

lemma run_join_order:
  "distinct (js @ joined evs) \<Longrightarrow>
   active_connections s = filter (\<lambda>c. c \<in> set (active_connections s)) js \<Longrightarrow>
   active_connections (run s evs) =
     filter (\<lambda>c. c \<in> set (active_connections (run s evs))) (js @ joined evs)"
proof (induction evs arbitrary: s js)
  case Nil
  then show ?case by simp
next
  case (Cons p evs)
  obtain env e where p: "p = (env, e)" by (cases p)
  let ?s = "fst (step env s e)"
  have ds: "distinct (active_connections s)"
    using Cons.prems by (metis distinct_append distinct_filter)
  have sub: "set (active_connections s) \<subseteq> set js"
    using Cons.prems(2) by (metis filter_is_subset set_filter subsetI mem_Collect_eq)
  show ?case
  proof (cases "\<exists>w user_id. e = Connect w user_id \<and> accept_ok env w")
    case True
    then obtain w user_id where e: "e = Connect w user_id" and acc: "accept_ok env w" by blast
    have j: "joined (p # evs) = w # joined evs" using p e acc by simp
    have w: "w \<notin> set js" using Cons.prems(1) j by auto
    have a: "active_connections ?s = active_connections s @ [w]"
      using e acc connect_active [of env w s user_id] by simp
    have "filter (\<lambda>c. c \<in> set (active_connections ?s)) (js @ [w]) =
          filter (\<lambda>c. c \<in> set (active_connections s)) js @ [w]"
      using w a by (auto intro: filter_cong)
    then have inv: "active_connections ?s =
        filter (\<lambda>c. c \<in> set (active_connections ?s)) (js @ [w])"
      using a Cons.prems(2) by simp
    have d: "distinct ((js @ [w]) @ joined evs)" using Cons.prems(1) j by simp
    show ?thesis using Cons.IH [OF d inv] p j by simp
  next
    case False
    then have j: "joined (p # evs) = joined evs"
      using p by (cases e) auto
    have "\<exists>P. active_connections ?s = filter P (active_connections s)"
    proof (cases e)
      case (Connect w user_id)
      then have "?s = s" using False connect_refused [of env w s user_id] by simp
      then have "active_connections ?s = filter (\<lambda>c. True) (active_connections s)"
        by simp
      then show ?thesis by (rule exI [of _ "\<lambda>c. True"])
    next
      case (Receive w f)
      then show ?thesis using receive_active [OF ds] by simp
    next
      case (Close w)
      then show ?thesis using close_active [OF ds] by blast
    qed
    then obtain P where P: "active_connections ?s = filter P (active_connections s)" by blast
    have inv: "active_connections ?s =
        filter (\<lambda>c. c \<in> set (active_connections ?s)) js"
      unfolding P by (rule filter_in_order [OF Cons.prems(2)])
    have d: "distinct (js @ joined evs)" using Cons.prems(1) j by simp
    show ?thesis using Cons.IH [OF d inv] p j by simp
  qed
qed

section \<open>The controller invariant\<close>

text \<open>
  Claim C1. Start from the initial manager and run any sequence of connects and closes
  (no color request). After each operation (after the first \<open>k\<close> of them, for every
  \<open>k\<close>), the controller, if set, is a registered connection, and the controller is
  \<^verbatim>\<open>None\<close> exactly when no connection is registered.
\<close>

theorem controller_invariant:
  assumes "\<forall>p \<in> set evs. \<not> is_receive (snd p)"
  shows "(\<forall>c. controller (run init (take k evs)) = Some c \<longrightarrow>
                  c \<in> set (active_connections (run init (take k evs)))) \<and>
           (controller (run init (take k evs)) = None \<longleftrightarrow>
              active_connections (run init (take k evs)) = [])"
proof -
  have "\<forall>p \<in> set (take k evs). \<not> is_receive (snd p)"
    using assms by (meson in_set_takeD)
  then have "controller_ok (run init (take k evs))"
    using controller_ok_init by (rule controller_ok_run)
  then show ?thesis
    by (auto simp: controller_ok_def split: option.splits)
qed

theorem controller_invariant_witness:
  "controller (run init (take 3 membership)) = Some 1 \<and>
   1 \<in> set (active_connections (run init (take 3 membership))) \<and>
   controller (run init (take 4 membership)) = None \<and>
   active_connections (run init (take 4 membership)) = []"
proof -
  have h: "\<forall>p \<in> set membership. \<not> is_receive (snd p)"
    by (simp add: membership_def)
  have c3: "controller (run init (take 3 membership)) = Some 1" by code_simp
  have c4: "controller (run init (take 4 membership)) = None" by code_simp
  from controller_invariant [OF h, of 3] controller_invariant [OF h, of 4] c3 c4
  show ?thesis by simp
qed

section \<open>Rejected color requests\<close>

text \<open>
  Claim C2. A \<^verbatim>\<open>color_change\<close> request (an object with \<^verbatim>\<open>type\<close> equal to
  \<^verbatim>\<open>"color_change"\<close> and a \<^verbatim>\<open>color\<close>) whose sender is not the controller, or whose
  color is not one of \<^verbatim>\<open>red\<close>, \<^verbatim>\<open>yellow\<close>, \<^verbatim>\<open>green\<close>, \<^verbatim>\<open>none\<close>, is
  ignored: the handler returns without an error, the manager (and so
  \<^verbatim>\<open>current_color\<close>) is unchanged, and nothing is sent to anyone.
\<close>

theorem set_color_rejected:
  assumes "map_of kvs ''type'' = Some (JStr ''color_change'')"
    and "map_of kvs ''color'' = Some v"
    and "Some w \<noteq> controller s \<or> v \<notin> JStr ` set colors"
  shows "on_message env s w (Parsed (JObj kvs)) = Inr (s, [])"
  using assms by (auto simp: on_message_def split: json.splits)

theorem set_color_rejected_witness:
  "on_message up three 1 (set_color ''red'') = Inr (three, []) \<and>
   on_message up three 0 (set_color ''blue'') = Inr (three, []) \<and>
   on_message up three 0
     (Parsed (JObj [(''type'', JStr ''color_change''), (''color'', JNum 1)])) = Inr (three, [])"
  using set_color_rejected [of "[(''type'', JStr ''color_change''), (''color'', JStr ''red'')]" "JStr ''red''" 1 three up]
    set_color_rejected [of "[(''type'', JStr ''color_change''), (''color'', JStr ''blue'')]" "JStr ''blue''" 0 three up]
    set_color_rejected [of "[(''type'', JStr ''color_change''), (''color'', JNum 1)]" "JNum 1" 0 three up]
  by (simp add: three_eq set_color_def colors_def)

section \<open>Accepted color requests\<close>

text \<open>
  Claim C10. An accepted request (sent by the controller, with a color \<open>c\<close> of the four)
  returns without an error and leaves \<^verbatim>\<open>current_color\<close> equal to \<open>c\<close>, which
  \<^verbatim>\<open>get_status\<close> then reports, whatever the transport does: the assignment comes
  before the loop of sends and no failed send undoes it. The example has every send fail.
\<close>

theorem set_color_assigns_color:
  assumes "controller s = Some w" and "c \<in> set colors"
    and "map_of kvs ''type'' = Some (JStr ''color_change'')"
    and "map_of kvs ''color'' = Some (JStr c)"
  shows "\<exists>s' tr. on_message env s w (Parsed (JObj kvs)) = Inr (s', tr) \<and>
           current_color s' = c \<and> st_current_color (get_status s') = c"
proof -
  have "on_message env s w (Parsed (JObj kvs)) = Inr (broadcast_color_change env s c)"
    using assms by (simp add: on_message_def)
  then show ?thesis
    using broadcast_color_change_color [of env s c]
    by (cases "broadcast_color_change env s c") (simp add: get_status_def)
qed

theorem set_color_assigns_color_witness:
  "controller three = Some 0 \<and> ''green'' \<in> set colors \<and>
   (\<exists>s' tr. on_message all_down three 0 (set_color ''green'') = Inr (s', tr) \<and>
      tr = [(0, Color_change ''green'', False), (2, Color_change ''green'', False)] \<and>
      current_color s' = ''green'' \<and> st_current_color (get_status s') = ''green'')"
proof -
  have a: "controller three = Some 0" by (simp add: three_eq)
  have b: "''green'' \<in> set colors" by (simp add: colors_def)
  have c: "on_message all_down three 0 (set_color ''green'') =
    Inr (\<lparr>active_connections = [1], controller = Some 0,
         current_color = ''green'', controller_id = Some ''alice''\<rparr>,
         [(0, Color_change ''green'', False), (2, Color_change ''green'', False)])"
    by code_simp
  from set_color_assigns_color [OF a b, of "[(''type'', JStr ''color_change''), (''color'', JStr ''green'')]" all_down]
  show ?thesis using a b c by (simp add: set_color_def)
qed

text \<open>When no send fails, an accepted request sends \<^verbatim>\<open>color_change\<close> to every
  registered connection, in order, and removes none.\<close>

lemma set_color_all_ok:
  assumes "controller s = Some w" and "c \<in> set colors"
    and "\<forall>x \<in> set (active_connections s). send_ok env x"
  shows "on_message env s w (set_color c) =
           Inr (s\<lparr>current_color := c\<rparr>,
                map (\<lambda>x. (x, Color_change c, True)) (active_connections s))"
  using assms color_loop_all_ok [of "active_connections s" "send_ok env" "Color_change c" 0]
  by (simp add: on_message_def set_color_def broadcast_color_change_def)

text \<open>
  Claim C3 says that an accepted request sends \<^verbatim>\<open>color_change\<close> to every registered
  connection. With connections 0, 1, 2 registered, 0 the controller and the send to 1
  failing, the \<^verbatim>\<open>except\<close> branch removes 1 from the list under iteration, the
  iterator's index moves past the shifted 2, and the loop ends: connection 2, registered
  before and after, is sent nothing.
\<close>

theorem set_color_skips_connection:
  "on_message (down_for 1) three 0 (set_color ''red'') =
     Inr (\<lparr>active_connections = [0, 2], controller = Some 0,
           current_color = ''red'', controller_id = Some ''alice''\<rparr>,
          [(0, Color_change ''red'', True), (1, Color_change ''red'', False)])"
  by code_simp

section \<open>Send failures\<close>

text \<open>
  Claim C7 says that in every broadcast a failed send neither stops the sends to the
  remaining recipients nor removes the failed connection from the registry. In
  \<^verbatim>\<open>broadcast_color_change\<close> it does both: with the send to 1 failing, 1 is removed and
  2 is never sent to.
\<close>

theorem color_broadcast_failure_counterexample:
  "\<not> send_ok (down_for 1) 1 \<and>
   1 \<in> set (active_connections three) \<and> 2 \<in> set (active_connections three) \<and>
   1 \<notin> set (active_connections (fst (broadcast_color_change (down_for 1) three ''red''))) \<and>
   2 \<notin> fst ` set (snd (broadcast_color_change (down_for 1) three ''red''))"
proof -
  have "broadcast_color_change (down_for 1) three ''red'' =
    (\<lparr>active_connections = [0, 2], controller = Some 0,
      current_color = ''red'', controller_id = Some ''alice''\<rparr>,
     [(0, Color_change ''red'', True), (1, Color_change ''red'', False)])"
    by code_simp
  then show ?thesis by (simp add: three_eq down_for_def)
qed

text \<open>
  Claim C7, amended. \<^verbatim>\<open>broadcast_user_update\<close> sends to every registered connection,
  in order, whatever fails, and \<^verbatim>\<open>broadcast_new_controller\<close> sends to the controller
  and then to every other registered connection, whatever fails; neither changes the
  manager. \<^verbatim>\<open>broadcast_color_change\<close>, on a registry without duplicates, removes
  exactly the connections whose send failed.
\<close>

theorem send_failure_handling:
  "map fst (broadcast_user_update env s) = active_connections s \<and>
   (controller s = Some c \<longrightarrow>
      map fst (broadcast_new_controller env s) =
        c # filter (\<lambda>d. d \<noteq> c) (active_connections s)) \<and>
   (distinct (active_connections s) \<longrightarrow>
      active_connections (fst (broadcast_color_change env s color)) =
        filter (\<lambda>d. (d, Color_change color, False)
                       \<notin> set (snd (broadcast_color_change env s color)))
          (active_connections s))"
proof (intro conjI impI)
  show "map fst (broadcast_user_update env s) = active_connections s"
    by (rule user_update_targets)
next
  assume "controller s = Some c"
  then show "map fst (broadcast_new_controller env s) =
        c # filter (\<lambda>d. d \<noteq> c) (active_connections s)"
    by (rule new_controller_targets)
next
  assume d: "distinct (active_connections s)"
  obtain cs tr where r:
    "color_loop (send_ok env) (Color_change color) 0 (active_connections s) = (cs, tr)"
    by fastforce
  have "cs = filter (\<lambda>d. (d, Color_change color, False) \<notin> set tr) (active_connections s)"
    using color_loop_conns [OF d, of "send_ok env" "Color_change color" 0] r by simp
  then show "active_connections (fst (broadcast_color_change env s color)) =
        filter (\<lambda>d. (d, Color_change color, False)
                       \<notin> set (snd (broadcast_color_change env s color)))
          (active_connections s)"
    using r by (simp add: broadcast_color_change_def)
qed

theorem send_failure_handling_witness:
  "map fst (broadcast_user_update all_down three) = [0, 1, 2] \<and>
   controller three = Some 0 \<and>
   map fst (broadcast_new_controller all_down three) = [0, 1, 2] \<and>
   distinct (active_connections three) \<and>
   snd (broadcast_color_change (down_for 0) three ''red'') =
     [(0, Color_change ''red'', False), (2, Color_change ''red'', True)] \<and>
   active_connections (fst (broadcast_color_change (down_for 0) three ''red'')) = [1, 2]"
proof -
  have r: "broadcast_color_change (down_for 0) three ''red'' =
     (\<lparr>active_connections = [1, 2], controller = Some 0,
       current_color = ''red'', controller_id = Some ''alice''\<rparr>,
      [(0, Color_change ''red'', False), (2, Color_change ''red'', True)])"
    by code_simp
  have a: "active_connections three = [0, 1, 2]" and c: "controller three = Some 0"
    by (simp_all add: three_eq)
  show ?thesis
    using send_failure_handling [of all_down three 0 "''red''"]
      send_failure_handling [of "down_for 0" three 0 "''red''"]
    by (simp add: a c r)
qed

section \<open>Disconnecting\<close>

text \<open>
  Claim C8. \<^verbatim>\<open>disconnect\<close> of a handle that is not registered returns \<^verbatim>\<open>False\<close>
  and leaves the manager (connections, controller, controller id, color) as it is; so,
  on a registry without duplicates, a second \<^verbatim>\<open>disconnect\<close> of the same handle changes
  nothing and reports no promotion.
\<close>

theorem disconnect_absent_noop:
  "(w \<notin> set (active_connections s) \<longrightarrow> disconnect s w = (s, False)) \<and>
   (distinct (active_connections s) \<longrightarrow>
      disconnect (fst (disconnect s w)) w = (fst (disconnect s w), False))"
proof (intro conjI impI)
  assume "w \<notin> set (active_connections s)"
  then show "disconnect s w = (s, False)" by (rule disconnect_absent)
next
  assume "distinct (active_connections s)"
  then have "w \<notin> set (active_connections (fst (disconnect s w)))"
    by (simp add: disconnect_active)
  then show "disconnect (fst (disconnect s w)) w = (fst (disconnect s w), False)"
    by (rule disconnect_absent)
qed

theorem disconnect_absent_noop_witness:
  "7 \<notin> set (active_connections three) \<and> disconnect three 7 = (three, False) \<and>
   distinct (active_connections three) \<and>
   fst (disconnect three 1) =
     \<lparr>active_connections = [0, 2], controller = Some 0,
      current_color = ''none'', controller_id = Some ''alice''\<rparr> \<and>
   disconnect (fst (disconnect three 1)) 1 = (fst (disconnect three 1), False)"
  using disconnect_absent_noop [of 7 three] disconnect_absent_noop [of 1 three]
  by (simp add: three_eq disconnect_def)

text \<open>
  In a run where every handle joins at most once, when the controller is still
  registered as it disconnects and another connection remains, \<^verbatim>\<open>disconnect\<close>
  reports a promotion and the new controller is the first of the remaining connections
  in the order of joining.
\<close>

lemma promotion_earliest_joined:
  assumes "distinct (joined evs)"
    and "controller (run init evs) = Some w"
    and "w \<in> set (active_connections (run init evs))"
    and "d \<in> set (active_connections (run init evs))" and "d \<noteq> w"
  shows "snd (disconnect (run init evs) w) \<and>
    (\<exists>c rest. controller (fst (disconnect (run init evs) w)) = Some c \<and>
       filter (\<lambda>x. x \<in> set (active_connections (fst (disconnect (run init evs) w))))
         (joined evs) = c # rest)"
proof -
  let ?s = "run init evs"
  let ?s' = "fst (disconnect ?s w)"
  have ord: "active_connections ?s = filter (\<lambda>x. x \<in> set (active_connections ?s)) (joined evs)"
    using run_join_order [of "[]" evs init] assms(1) by (simp add: init_def)
  then have ds: "distinct (active_connections ?s)"
    using assms(1) by (metis distinct_filter)
  have a: "active_connections ?s' = remove1 w (active_connections ?s)"
    by (rule disconnect_active)
  also have "\<dots> = filter (\<lambda>x. x \<noteq> w) (active_connections ?s)"
    using ds by (simp add: distinct_remove1_removeAll removeAll_filter_not_eq) metis
  finally have f: "active_connections ?s' = filter (\<lambda>x. x \<noteq> w) (active_connections ?s)" .
  have ord': "active_connections ?s' =
      filter (\<lambda>x. x \<in> set (active_connections ?s')) (joined evs)"
    unfolding f by (rule filter_in_order [OF ord])
  have "d \<in> set (remove1 w (active_connections ?s))" using assms(4,5) by simp
  then obtain c rest where cr: "remove1 w (active_connections ?s) = c # rest"
    by (cases "remove1 w (active_connections ?s)") auto
  have r: "disconnect ?s w =
      (?s\<lparr>active_connections := c # rest, controller := Some c, controller_id := None\<rparr>, True)"
    using assms(2,3) cr by (simp add: disconnect_def)
  have "controller ?s' = Some c" and "snd (disconnect ?s w)" and "active_connections ?s' = c # rest"
    using r by simp_all
  then show ?thesis using ord' by metis
qed

lemma promotion_earliest_joined_example:
  "distinct (joined session) \<and> joined session = [0, 1, 2, 3] \<and>
   controller (run init session) = Some 0 \<and>
   active_connections (run init session) = [0, 2, 3] \<and>
   controller (fst (disconnect (run init session) 0)) = Some 2 \<and>
   filter (\<lambda>x. x \<in> set (active_connections (fst (disconnect (run init session) 0))))
     (joined session) = [2, 3]"
proof -
  have j: "joined session = [0, 1, 2, 3]" by code_simp
  have s: "run init session =
     \<lparr>active_connections = [0, 2, 3], controller = Some 0,
      current_color = ''red'', controller_id = Some ''alice''\<rparr>"
    by code_simp
  have d: "disconnect (run init session) 0 =
     (\<lparr>active_connections = [2, 3], controller = Some 2,
       current_color = ''red'', controller_id = None\<rparr>, True)"
    by code_simp
  have 1: "distinct (joined session)" by (simp add: j)
  have 2: "controller (run init session) = Some 0" by (simp add: s)
  have 3: "0 \<in> set (active_connections (run init session))" by (simp add: s)
  have 4: "2 \<in> set (active_connections (run init session))" by (simp add: s)
  have 5: "(2::nat) \<noteq> 0" by simp
  from promotion_earliest_joined [OF 1 2 3 4 5]
  show ?thesis using j s d by simp
qed

text \<open>
  Claim C4 says that every disconnect of the current controller with another connection
  remaining promotes the earliest-joined survivor. With alice, bob and carol connected
  and alice the controller, alice sends a color request and the send back to her own
  connection fails: \<^verbatim>\<open>broadcast_color_change\<close> removes her connection from the list
  but leaves it as \<^verbatim>\<open>controller\<close>. When she then disconnects, the guard
  \<^verbatim>\<open>websocket in self.active_connections\<close> is false, \<^verbatim>\<open>disconnect\<close> returns
  \<^verbatim>\<open>False\<close> and promotes nobody: bob and carol remain, the controller is still
  alice's closed connection, and only \<^verbatim>\<open>user_update\<close> is sent.
\<close>

theorem pruned_controller_not_replaced:
  "run init stale =
     \<lparr>active_connections = [1, 2], controller = Some 0,
      current_color = ''red'', controller_id = Some ''alice''\<rparr> \<and>
   disconnect (run init stale) 0 = (run init stale, False) \<and>
   step up (run init stale) (Close 0) =
     (\<lparr>active_connections = [1, 2], controller = Some 0,
       current_color = ''red'', controller_id = Some ''alice''\<rparr>,
      [(1, User_update 2 (Some ''alice''), True), (2, User_update 2 (Some ''alice''), True)])"
  by code_simp

text \<open>
  Claim C5. When \<^verbatim>\<open>disconnect\<close> promotes a new controller, the handler sends the
  promoted connection a \<^verbatim>\<open>state_update\<close> with \<^verbatim>\<open>is_controller\<close> true and every
  other remaining connection a \<^verbatim>\<open>state_update\<close> with \<^verbatim>\<open>is_controller\<close> false; each
  of these sends is delivered when the transport of its target is up.
\<close>

theorem promotion_role_correction:
  assumes "disconnect s w = (s1, True)"
  shows "fst (on_close env s w) = s1 \<and>
    (\<exists>c. controller s1 = Some c \<and>
       (c, State_update (current_color s1) True (controller_id s1), send_ok env c)
          \<in> set (snd (on_close env s w)) \<and>
       (\<forall>d \<in> set (active_connections s1). d \<noteq> c \<longrightarrow>
          (d, State_update (current_color s1) False (controller_id s1), send_ok env d)
             \<in> set (snd (on_close env s w))))"
proof -
  from assms obtain c where c: "controller s1 = Some c"
    by (auto simp: disconnect_def Let_def split: if_splits list.splits)
  have tr: "snd (on_close env s w) = broadcast_new_controller env s1 @ broadcast_user_update env s1"
    using assms by (simp add: on_close_def)
  have "fst (on_close env s w) = s1" using assms by (simp add: on_close_def)
  moreover have "(c, State_update (current_color s1) True (controller_id s1), send_ok env c)
          \<in> set (snd (on_close env s w))"
    by (simp add: tr broadcast_new_controller_def c send_state_update_def send_text_def)
  moreover have "\<forall>d \<in> set (active_connections s1). d \<noteq> c \<longrightarrow>
          (d, State_update (current_color s1) False (controller_id s1), send_ok env d)
             \<in> set (snd (on_close env s w))"
    by (auto simp: tr broadcast_new_controller_def c send_state_update_def send_text_def)
  ultimately show ?thesis using c by blast
qed

theorem promotion_role_correction_witness:
  "disconnect three 0 =
     (\<lparr>active_connections = [1, 2], controller = Some 1,
       current_color = ''none'', controller_id = None\<rparr>, True) \<and>
   (1, State_update ''none'' True None, True) \<in> set (snd (on_close (down_for 2) three 0)) \<and>
   (2, State_update ''none'' False None, False) \<in> set (snd (on_close (down_for 2) three 0))"
proof -
  have d: "disconnect three 0 =
     (\<lparr>active_connections = [1, 2], controller = Some 1,
       current_color = ''none'', controller_id = None\<rparr>, True)"
    by code_simp
  from promotion_role_correction [OF d, of "down_for 2"] d
  show ?thesis by (simp add: down_for_def)
qed

text \<open>
  Claim C6 says that the controller identity reported is that of the promoted connection
  after the controller disconnects. With alice and bob connected and alice, the
  controller, disconnecting, bob's connection is promoted but \<^verbatim>\<open>controller_id\<close> stays
  \<^verbatim>\<open>None\<close>: the \<^verbatim>\<open>state_update\<close> and \<^verbatim>\<open>user_update\<close> sent to bob and
  \<^verbatim>\<open>get_status\<close> all report no controller, with one connection registered.
\<close>

theorem promoted_controller_id_none:
  "step up (run init [(up, Connect 0 ''alice''), (up, Connect 1 ''bob'')]) (Close 0) =
     (\<lparr>active_connections = [1], controller = Some 1,
       current_color = ''none'', controller_id = None\<rparr>,
      [(1, State_update ''none'' True None, True), (1, User_update 1 None, True)]) \<and>
   get_status (run init [(up, Connect 0 ''alice''), (up, Connect 1 ''bob''), (up, Close 0)]) =
     \<lparr>st_current_color = ''none'', st_total_users = 1, st_controller_id = None\<rparr>"
  by code_simp

section \<open>User updates\<close>

text \<open>
  Claim C9. The \<^verbatim>\<open>user_update\<close> messages sent by a connect or by the handling of a
  close are one per connection registered after the operation, in order, each carrying
  as \<^verbatim>\<open>total_users\<close> the number of connections registered after the operation.
\<close>

theorem user_update_total_users:
  "filter is_user_update (snd (on_close env s w)) =
     map (\<lambda>c. (c, User_update (length (active_connections (fst (on_close env s w))))
                     (controller_id (fst (on_close env s w))), send_ok env c))
       (active_connections (fst (on_close env s w))) \<and>
   (connect env s w user_id = Inr (s', tr, b) \<longrightarrow>
      filter is_user_update tr =
        map (\<lambda>c. (c, User_update (length (active_connections s')) (controller_id s'),
                     send_ok env c))
          (active_connections s'))"
proof (intro conjI impI)
  show "filter is_user_update (snd (on_close env s w)) =
     map (\<lambda>c. (c, User_update (length (active_connections (fst (on_close env s w))))
                     (controller_id (fst (on_close env s w))), send_ok env c))
       (active_connections (fst (on_close env s w)))"
    by (cases "disconnect s w")
       (simp add: on_close_def, simp add: broadcast_user_update_def send_text_def)
next
  assume "connect env s w user_id = Inr (s', tr, b)"
  then obtain isc where "tr = send_state_update env s' w isc @ broadcast_user_update env s'"
    by (auto simp: connect_def Let_def split: if_splits)
  then show "filter is_user_update tr =
        map (\<lambda>c. (c, User_update (length (active_connections s')) (controller_id s'),
                     send_ok env c))
          (active_connections s')"
    by (simp add: broadcast_user_update_def send_text_def)
qed

theorem user_update_total_users_witness:
  "connect up three 3 ''dave'' =
     Inr (\<lparr>active_connections = [0, 1, 2, 3], controller = Some 0,
           current_color = ''none'', controller_id = Some ''alice''\<rparr>,
          [(3, State_update ''none'' False (Some ''alice''), True),
           (0, User_update 4 (Some ''alice''), True), (1, User_update 4 (Some ''alice''), True),
           (2, User_update 4 (Some ''alice''), True), (3, User_update 4 (Some ''alice''), True)],
          False) \<and>
   filter is_user_update
     [(3, State_update ''none'' False (Some ''alice''), True),
      (0, User_update 4 (Some ''alice''), True), (1, User_update 4 (Some ''alice''), True),
      (2, User_update 4 (Some ''alice''), True), (3, User_update 4 (Some ''alice''), True)] =
     map (\<lambda>c. (c, User_update 4 (Some ''alice''), True)) [0, 1, 2, 3]"
proof -
  have c: "connect up three 3 ''dave'' =
     Inr (\<lparr>active_connections = [0, 1, 2, 3], controller = Some 0,
           current_color = ''none'', controller_id = Some ''alice''\<rparr>,
          [(3, State_update ''none'' False (Some ''alice''), True),
           (0, User_update 4 (Some ''alice''), True), (1, User_update 4 (Some ''alice''), True),
           (2, User_update 4 (Some ''alice''), True), (3, User_update 4 (Some ''alice''), True)],
          False)"
    by code_simp
  from user_update_total_users [of up three 3 "''dave''"
      "\<lparr>active_connections = [0, 1, 2, 3], controller = Some 0,
        current_color = ''none'', controller_id = Some ''alice''\<rparr>"
      "[(3, State_update ''none'' False (Some ''alice''), True),
        (0, User_update 4 (Some ''alice''), True), (1, User_update 4 (Some ''alice''), True),
        (2, User_update 4 (Some ''alice''), True), (3, User_update 4 (Some ''alice''), True)]"
      False] c
  show ?thesis by (simp add: up_def)
qed

end
